theory Spec2Isabelle
  imports Complex_Main "HOL-Library.Multiset" "HOL-Library.Log_Nat" "HOL-Library.AList"
    "HOL-Library.Char_ord" "HOL-Library.List_Lexorder"
begin

section \<open>Deploy status (paasta_tools/kubernetes_tools.py, get_kubernetes_app_deploy_status)\<close>

text \<open>
  \<^verbatim>\<open>class KubernetesDeployStatus\<close> numbers its members with \<^verbatim>\<open>range(0, 4)\<close>:
  Running, Deploying, Waiting, Stopped.
\<close>

datatype KubernetesDeployStatus = Running | Deploying | Waiting | Stopped

text \<open>
  The fields of \<^verbatim>\<open>app.status\<close> that the function reads. Each is an optional integer of
  the Kubernetes client model (\<^verbatim>\<open>None\<close> when the API server leaves it out).
\<close>

record app_status =
  ready_replicas :: "int option"
  updated_replicas :: "int option"
  replicas :: "int option"

text \<open>
  The \<^verbatim>\<open>if/elif\<close> chain of the source, in its order. The \<^verbatim>\<open>kube_client\<close> argument is
  not read by the body and is left out; the returned message is always the empty string.
\<close>

definition get_kubernetes_app_deploy_status ::
  "app_status \<Rightarrow> int \<Rightarrow> KubernetesDeployStatus \<times> string" where
  "get_kubernetes_app_deploy_status status desired_instances =
     (let deploy_status =
        (if ready_replicas status = None then
           (if desired_instances = 0 then Stopped else Waiting)
         else if ready_replicas status \<noteq> Some desired_instances then Waiting
         else if updated_replicas status \<noteq> None
                 \<and> the (updated_replicas status) < desired_instances then Deploying
         else if replicas status = Some 0 \<and> desired_instances = 0 then Stopped
         else Running);
          deploy_message = ''''
      in (deploy_status, deploy_message))"

text \<open>
  The rule table of the specification (section 4.8), written from its words: a list of
  guarded outcomes, read top to bottom, the first rule whose guard holds giving the status.
\<close>

fun first_match :: "(bool \<times> 'a) list \<Rightarrow> 'a option" where
  "first_match [] = None"
| "first_match ((g, r) # rules) = (if g then Some r else first_match rules)"

definition deploy_status_rules ::
  "int \<Rightarrow> int option \<Rightarrow> int option \<Rightarrow> int \<Rightarrow> (bool \<times> KubernetesDeployStatus) list" where
  "deploy_status_rules desired ready updated observed =
     [ (ready = None, if desired = 0 then Stopped else Waiting),
       (ready \<noteq> None \<and> ready \<noteq> Some desired, Waiting),
       (case updated of None \<Rightarrow> False | Some u \<Rightarrow> u < desired, Deploying),
       (observed = 0 \<and> desired = 0, Stopped),
       (True, Running) ]"

section \<open>Python values used by the source\<close>

subsection \<open>Exceptions\<close>

text \<open>
  The exceptions the modelled functions raise, as values. \<open>Exception\<close> is a bare
  \<^verbatim>\<open>Exception(message)\<close>; \<open>InvalidKubernetesConfig\<close> carries the wrapped exception and the
  service and instance names, as the class of the source does.
\<close>

datatype error =
    Exception string
  | ValueError string
  | KeyError string
  | AttributeError string
  | ApiException nat
  | InvalidKubernetesConfig error string string

text \<open>
  The specification names the two bare exceptions of \<^verbatim>\<open>get_bounce_method\<close> and
  \<^verbatim>\<open>get_desired_instances\<close> by kind; the messages are those of the source.
\<close>

definition IncompatibleBounceMethod :: error where
  "IncompatibleBounceMethod =
     Exception ''If service instance defines an EBS volume it must use a downthenup bounce_method''"


subsection \<open>Integers as text\<close>

text \<open>\<^verbatim>\<open>str(i)\<close> and \<^verbatim>\<open>"{}".format(i)\<close> for a Python integer: decimal digits, a leading minus sign.\<close>

definition digit_char :: "nat \<Rightarrow> char" where
  "digit_char d = ''0123456789'' ! (d mod 10)"

fun str_nat :: "nat \<Rightarrow> string" where
  "str_nat n = (if n < 10 then [digit_char n] else str_nat (n div 10) @ [digit_char (n mod 10)])"

definition str_int :: "int \<Rightarrow> string" where
  "str_int i = (if i < 0 then CHR ''-'' # str_nat (nat (- i)) else str_nat (nat i))"

subsection \<open>Floats\<close>

text \<open>
  A Python \<^verbatim>\<open>float\<close> is an IEEE 754 binary64 number. A finite one is a rational, and
  every arithmetic operation returns the exact result rounded to the nearest number with a
  53-bit significand, ties going to the even significand. \<open>round_double\<close> is that rounding
  (gradual underflow included: the spacing never drops below \<open>2 ^ - 1074\<close>). Infinities and
  NaN are not modelled: the results below stay far from the overflow threshold for the
  margin factors, setpoints and instance counts that configurations hold.
\<close>

definition pow2 :: "int \<Rightarrow> rat" where
  "pow2 e = (if 0 \<le> e then 2 ^ nat e else 1 / 2 ^ nat (- e))"

text \<open>\<open>ilog2 x\<close> is the binary exponent of a positive rational: \<open>2 ^ ilog2 x \<le> x < 2 ^ (ilog2 x + 1)\<close>.\<close>

definition ilog2 :: "rat \<Rightarrow> int" where
  "ilog2 x = (case quotient_of x of (p, q) \<Rightarrow>
               (let e0 = bitlen p - bitlen q in if pow2 e0 \<le> x then e0 else e0 - 1))"

definition round_half_even :: "rat \<Rightarrow> int" where
  "round_half_even q =
     (let f = \<lfloor>q\<rfloor>; r = q - of_int f
      in if r < 1 / 2 then f else if 1 / 2 < r then f + 1 else if even f then f else f + 1)"

definition round_double :: "rat \<Rightarrow> rat" where
  "round_double x =
     (if x = 0 then 0
      else (let e = max (ilog2 \<bar>x\<bar> - 52) (- 1074)
            in of_int (round_half_even (x / pow2 e)) * pow2 e))"

text \<open>
  \<^verbatim>\<open>a - b\<close> and \<^verbatim>\<open>a * b\<close> on floats (an integer operand is converted first, which is
  \<open>float_of_int\<close>), \<^verbatim>\<open>int(x)\<close> (truncation towards zero) and \<^verbatim>\<open>math.ceil(x)\<close>.
\<close>

definition float_of_int :: "int \<Rightarrow> rat" where
  "float_of_int i = round_double (of_int i)"


definition float_mul :: "rat \<Rightarrow> rat \<Rightarrow> rat" where
  "float_mul a b = round_double (a * b)"


definition math_ceil :: "rat \<Rightarrow> int" where
  "math_ceil x = \<lceil>x\<rceil>"

subsection \<open>Strings\<close>

text \<open>
  \<^verbatim>\<open>s.replace(old, new)\<close> and \<^verbatim>\<open>s.replace(old, new, count)\<close> for a non-empty \<open>old\<close>:
  a scan from the left that replaces each occurrence it meets and continues after it.
\<close>

function str_replace :: "string \<Rightarrow> string \<Rightarrow> string \<Rightarrow> string" where
  "str_replace old new [] = []"
| "str_replace old new (c # s) =
     (if old \<noteq> [] \<and> take (length old) (c # s) = old
      then new @ str_replace old new (drop (length old) (c # s))
      else c # str_replace old new s)"
  by pat_completeness auto
termination
  by (relation "measure (\<lambda>(old, new, s). length s)") auto

function str_replace_count :: "string \<Rightarrow> string \<Rightarrow> nat \<Rightarrow> string \<Rightarrow> string" where
  "str_replace_count old new n [] = []"
| "str_replace_count old new n (c # s) =
     (if n = 0 then c # s
      else if old \<noteq> [] \<and> take (length old) (c # s) = old
      then new @ str_replace_count old new (n - 1) (drop (length old) (c # s))
      else c # str_replace_count old new n s)"
  by pat_completeness auto
termination
  by (relation "measure (\<lambda>(old, new, n, s). length s)") auto

definition startswith :: "string \<Rightarrow> string \<Rightarrow> bool" where
  "startswith s p = (take (length p) s = p)"

text \<open>
  \<^verbatim>\<open>s.lower()\<close> on ASCII text: the letters A to Z move to a to z, every other character
  stays. (The names the sanitiser is specified for are ASCII.)
\<close>

definition lower_char :: "char \<Rightarrow> char" where
  "lower_char c =
     (if 65 \<le> (of_char c :: nat) \<and> (of_char c :: nat) \<le> 90 then char_of (of_char c + 32 :: nat) else c)"

definition lower :: "string \<Rightarrow> string" where
  "lower s = map lower_char s"

section \<open>Name sanitiser (sanitise_kubernetes_name, get_kubernetes_app_name)\<close>

definition sanitise_kubernetes_name :: "string \<Rightarrow> string" where
  "sanitise_kubernetes_name service =
     (let name = str_replace ''_'' ''--'' service;
          name = (if startswith name ''--''
                  then str_replace_count ''--'' ''underscore-'' 1 name else name)
      in lower name)"


section \<open>The service instance configuration (class KubernetesDeploymentConfig)\<close>

text \<open>
  A \<^verbatim>\<open>node_selectors\<close> entry is a plain string, a list of strings, or a list of operator
  dictionaries with the keys \<^verbatim>\<open>operator\<close>, \<^verbatim>\<open>values\<close> and \<^verbatim>\<open>value\<close> (each possibly
  missing); anything else is \<open>Selector_other\<close>. Lists are homogeneous, as the schema that the
  source's comment refers to requires.
\<close>

record selector_config =
  sc_operator :: "string option"
  sc_values :: "string list option"
  sc_value :: "int option"

datatype node_selector =
    Selector_str string
  | Selector_strs "string list"
  | Selector_configs "selector_config list"
  | Selector_other

text \<open>
  \<^verbatim>\<open>anti_affinity\<close> is one condition or a list of conditions; a condition is a dictionary
  (\<^verbatim>\<open>KubeAffinityCondition\<close>) read through its keys \<^verbatim>\<open>service\<close> and \<^verbatim>\<open>instance\<close>.
\<close>

type_synonym KubeAffinityCondition = "(string \<times> string) list"

datatype anti_affinity_config =
    One_condition KubeAffinityCondition
  | Conditions "KubeAffinityCondition list"

text \<open>
  The \<^verbatim>\<open>autoscaling\<close> dictionary of the configuration (field \<open>ap_k\<close> for the key
  \<^verbatim>\<open>k\<close>); every key may be missing.
\<close>

record AutoscalingParamsDict =
  ap_metrics_provider :: "string option"
  ap_decision_policy :: "string option"
  ap_setpoint :: "rat option"
  ap_forecast_policy :: "string option"
  ap_offset :: "rat option"
  ap_moving_average_window_seconds :: "int option"

text \<open>
  The keys of \<^verbatim>\<open>config_dict\<close> that the modelled methods read (field \<open>cfg_k\<close> for the
  key \<^verbatim>\<open>k\<close>); \<open>None\<close> is a missing key.
\<close>

record KubernetesDeploymentConfigDict =
  cfg_bounce_method :: "string option"
  cfg_bounce_margin_factor :: "rat option"
  cfg_autoscaling :: "AutoscalingParamsDict option"
  cfg_min_instances :: "int option"
  cfg_max_instances :: "int option"
  cfg_node_selectors :: "(string \<times> node_selector) list option"
  cfg_anti_affinity :: "anti_affinity_config option"

text \<open>
  The configuration object. Beside \<^verbatim>\<open>config_dict\<close> it holds what the methods inherited
  from \<^verbatim>\<open>LongRunningServiceConfig\<close> and \<^verbatim>\<open>InstanceConfig\<close> return; those classes are in
  other modules, so the values of their methods are fields here:
  \<^verbatim>\<open>get_service\<close>, \<^verbatim>\<open>get_instance\<close>, \<^verbatim>\<open>get_cluster\<close>, \<^verbatim>\<open>get_desired_state\<close>,
  \<^verbatim>\<open>is_autoscaling_enabled\<close>, the inherited \<^verbatim>\<open>get_desired_instances\<close>,
  \<^verbatim>\<open>get_aws_ebs_volumes\<close>, \<^verbatim>\<open>get_persistent_volumes\<close>, \<^verbatim>\<open>get_deploy_whitelist\<close>,
  \<^verbatim>\<open>get_deploy_blacklist\<close> and \<^verbatim>\<open>get_env\<close>. A volume is its dictionary.
\<close>

type_synonym volume = "(string \<times> string) list"

record KubernetesDeploymentConfig =
  paasta_service :: string
  paasta_instance :: string
  paasta_cluster :: string
  config_dict :: KubernetesDeploymentConfigDict
  desired_state :: string
  autoscaling_enabled :: bool
  super_desired_instances :: int
  aws_ebs_volumes :: "volume list"
  persistent_volumes :: "volume list"
  deploy_whitelist :: "(string \<times> string list) option"
  deploy_blacklist :: "(string \<times> string) list"
  env :: "(string \<times> string) list"

text \<open>
  What the methods of \<^verbatim>\<open>SystemPaastaConfig\<close> (another module) return:
  \<^verbatim>\<open>get_hpa_always_uses_external_for_signalfx()\<close>, the rendering
  \<^verbatim>\<open>get_legacy_autoscaling_signalflow().format(...)\<close> as a function of the keyword arguments
  in the order the source passes them, and the \<^verbatim>\<open>affinity\<close> entry of \<^verbatim>\<open>get_pod_defaults()\<close>
  (a raw value of the system configuration) when there is one.
\<close>

record SystemPaastaConfig =
  hpa_always_uses_external_for_signalfx :: bool
  legacy_autoscaling_signalflow_format ::
    "rat \<Rightarrow> rat \<Rightarrow> int \<Rightarrow> string \<Rightarrow> string \<Rightarrow> string \<Rightarrow> string \<Rightarrow> string"
  pod_defaults_affinity :: "string option"

section \<open>Bounce strategy (get_bounce_method, get_deployment_strategy_config)\<close>


definition get_bounce_method :: "KubernetesDeploymentConfig \<Rightarrow> error + string" where
  "get_bounce_method self =
     (let bounce_method =
            (case cfg_bounce_method (config_dict self) of None \<Rightarrow> ''crossover'' | Some b \<Rightarrow> b)
      in if aws_ebs_volumes self \<noteq> [] \<and> \<not> bounce_method = ''downthenup''
         then Inl IncompatibleBounceMethod
         else Inr bounce_method)"





section \<open>Desired instances (get_desired_instances)\<close>


section \<open>Autoscaling policy (get_autoscaling_params, get_autoscaling_metric_spec)\<close>














text \<open>
  \<^verbatim>\<open>autoscaling_params[key]\<close> is a subscript: a missing key raises \<^verbatim>\<open>KeyError\<close>.
\<close>

definition subscript :: "'a option \<Rightarrow> string \<Rightarrow> error + 'a" where
  "subscript entry key = (case entry of None \<Rightarrow> Inl (KeyError key) | Some v \<Rightarrow> Inr v)"




section \<open>Placement (get_node_affinity, get_pod_anti_affinity, get_pod_template_spec)\<close>

definition PAASTA_ATTRIBUTE_PREFIX :: string where
  "PAASTA_ATTRIBUTE_PREFIX = ''paasta.yelp.com/''"

definition to_node_label :: "string \<Rightarrow> string" where
  "to_node_label label =
     (if label \<in> set [''instance_type'', ''instance-type'']
      then ''node.kubernetes.io/instance-type''
      else if label \<in> set [''datacenter'', ''ecosystem'', ''habitat'', ''hostname'', ''region'',
                             ''superregion'']
      then ''yelp.com/'' @ label
      else label)"

text \<open>A requirement is the triple (key, operator, values) of the source.\<close>

type_synonym requirement = "string \<times> string \<times> string list"

definition whitelist_blacklist_to_requirements ::
  "KubernetesDeploymentConfig \<Rightarrow> requirement list" where
  "whitelist_blacklist_to_requirements self =
     (let requirements =
            (case deploy_whitelist self of
               None \<Rightarrow> []
             | Some (location_type, alloweds) \<Rightarrow>
                 [(to_node_label location_type, ''In'', alloweds)])
      in requirements
           @ map (\<lambda>(location_type, not_allowed).
                    (to_node_label location_type, ''NotIn'', [not_allowed]))
               (deploy_blacklist self))"

text \<open>
  The body of the inner loop of \<^verbatim>\<open>_raw_selectors_to_requirements\<close> for one operator
  dictionary: the subscripts \<^verbatim>\<open>config["operator"]\<close>, \<^verbatim>\<open>config["values"]\<close> and
  \<^verbatim>\<open>config["value"]\<close> raise \<^verbatim>\<open>KeyError\<close> on a missing key, an unknown operator raises
  \<^verbatim>\<open>ValueError\<close>.
\<close>

definition config_to_requirement :: "string \<Rightarrow> selector_config \<Rightarrow> error + requirement" where
  "config_to_requirement label config =
     (case subscript (sc_operator config) ''operator'' of
        Inl e \<Rightarrow> Inl e
      | Inr op \<Rightarrow>
          if op \<in> set [''In'', ''NotIn''] then
            (case subscript (sc_values config) ''values'' of
               Inl e \<Rightarrow> Inl e
             | Inr vs \<Rightarrow> Inr (label, op, vs))
          else if op \<in> set [''Exists'', ''DoesNotExist''] then Inr (label, op, [])
          else if op \<in> set [''Gt'', ''Lt''] then
            (case subscript (sc_value config) ''value'' of
               Inl e \<Rightarrow> Inl e
             | Inr v \<Rightarrow> Inr (label, op, [str_int v]))
          else Inl (ValueError (''Unknown k8s node affinity operator: '' @ op)))"

text \<open>A loop that appends one requirement per element and stops at the first exception.\<close>

fun configs_to_requirements :: "string \<Rightarrow> selector_config list \<Rightarrow> error + requirement list" where
  "configs_to_requirements label [] = Inr []"
| "configs_to_requirements label (config # configs) =
     (case config_to_requirement label config of
        Inl e \<Rightarrow> Inl e
      | Inr r \<Rightarrow>
          (case configs_to_requirements label configs of
             Inl e \<Rightarrow> Inl e
           | Inr rs \<Rightarrow> Inr (r # rs)))"

text \<open>
  The outer loop over \<^verbatim>\<open>raw_selectors.items()\<close>: an entry that is not a non-empty list is
  skipped, a list of strings is shorthand for one \<^verbatim>\<open>In\<close> configuration.
\<close>

fun selectors_to_requirements ::
  "(string \<times> node_selector) list \<Rightarrow> error + requirement list" where
  "selectors_to_requirements [] = Inr []"
| "selectors_to_requirements ((label, configs) # raw_selectors) =
     (case (case configs of
              Selector_str v \<Rightarrow> Inr []
            | Selector_other \<Rightarrow> Inr []
            | Selector_strs vs \<Rightarrow>
                if length vs = 0 then Inr []
                else configs_to_requirements (to_node_label label)
                       [\<lparr>sc_operator = Some ''In'', sc_values = Some vs, sc_value = None\<rparr>]
            | Selector_configs cs \<Rightarrow>
                if length cs = 0 then Inr []
                else configs_to_requirements (to_node_label label) cs) of
        Inl e \<Rightarrow> Inl e
      | Inr rs \<Rightarrow>
          (case selectors_to_requirements raw_selectors of
             Inl e \<Rightarrow> Inl e
           | Inr rest \<Rightarrow> Inr (rs @ rest)))"

definition raw_selectors_to_requirements ::
  "KubernetesDeploymentConfig \<Rightarrow> error + requirement list" where
  "raw_selectors_to_requirements self =
     (let raw_selectors =
            (case cfg_node_selectors (config_dict self) of None \<Rightarrow> [] | Some d \<Rightarrow> d)
      in selectors_to_requirements raw_selectors)"

datatype V1NodeSelectorRequirement =
  V1NodeSelectorRequirement (req_key: string) (req_operator: string) (req_values: "string list")

datatype V1NodeSelectorTerm =
  V1NodeSelectorTerm (matchExpressions: "V1NodeSelectorRequirement list")

datatype V1NodeSelector =
  V1NodeSelector (nodeSelectorTerms: "V1NodeSelectorTerm list")

datatype V1NodeAffinity =
  V1NodeAffinity (requiredDuringSchedulingIgnoredDuringExecution: V1NodeSelector)

text \<open>
  The merged list: \<^verbatim>\<open>requirements.extend(self._raw_selectors_to_requirements())\<close> on the
  list from the allow and deny lists.
\<close>

definition merged_requirements :: "KubernetesDeploymentConfig \<Rightarrow> error + requirement list" where
  "merged_requirements self =
     (let requirements = whitelist_blacklist_to_requirements self in
      case raw_selectors_to_requirements self of
        Inl e \<Rightarrow> Inl e
      | Inr extra \<Rightarrow> Inr (requirements @ extra))"

definition get_node_affinity :: "KubernetesDeploymentConfig \<Rightarrow> error + V1NodeAffinity option" where
  "get_node_affinity self =
     (case merged_requirements self of
        Inl e \<Rightarrow> Inl e
      | Inr requirements \<Rightarrow>
          if length requirements = 0 then Inr None
          else
            (let term = V1NodeSelectorTerm
                          (map (\<lambda>(key, op, vs). V1NodeSelectorRequirement key op vs) requirements);
                 selector = V1NodeSelector [term]
             in Inr (Some (V1NodeAffinity selector))))"

datatype V1LabelSelector = V1LabelSelector (matchLabels: "(string \<times> string) list")

datatype V1PodAffinityTerm =
  V1PodAffinityTerm (topologyKey: string) (labelSelector: V1LabelSelector)

datatype V1PodAntiAffinity =
  V1PodAntiAffinity (anti_required_during_scheduling: "V1PodAffinityTerm list")

definition kube_affinity_condition_to_label_selector ::
  "KubeAffinityCondition \<Rightarrow> V1LabelSelector option" where
  "kube_affinity_condition_to_label_selector condition =
     (let labels =
            (case map_of condition ''service'' of
               None \<Rightarrow> [] | Some v \<Rightarrow> [(PAASTA_ATTRIBUTE_PREFIX @ ''service'', v)])
            @ (case map_of condition ''instance'' of
                 None \<Rightarrow> [] | Some v \<Rightarrow> [(PAASTA_ATTRIBUTE_PREFIX @ ''instance'', v)])
      in if labels \<noteq> [] then Some (V1LabelSelector labels) else None)"

fun affinity_terms_of :: "KubeAffinityCondition list \<Rightarrow> V1PodAffinityTerm list" where
  "affinity_terms_of [] = []"
| "affinity_terms_of (condition # conditions) =
     (case kube_affinity_condition_to_label_selector condition of
        Some label_selector \<Rightarrow>
          V1PodAffinityTerm ''kubernetes.io/hostname'' label_selector # affinity_terms_of conditions
      | None \<Rightarrow> affinity_terms_of conditions)"

text \<open>
  \<^verbatim>\<open>if not conditions\<close> holds for a missing key (the default is the empty list), an empty
  list and an empty dictionary; a single dictionary is wrapped into a list.
\<close>

definition get_pod_anti_affinity :: "KubernetesDeploymentConfig \<Rightarrow> V1PodAntiAffinity option" where
  "get_pod_anti_affinity self =
     (case cfg_anti_affinity (config_dict self) of
        None \<Rightarrow> None
      | Some (Conditions []) \<Rightarrow> None
      | Some (One_condition []) \<Rightarrow> None
      | Some (One_condition condition) \<Rightarrow> Some (V1PodAntiAffinity (affinity_terms_of [condition]))
      | Some (Conditions conditions) \<Rightarrow> Some (V1PodAntiAffinity (affinity_terms_of conditions)))"

text \<open>
  The \<^verbatim>\<open>affinity\<close> entry of \<^verbatim>\<open>pod_spec_kwargs\<close>: a \<^verbatim>\<open>V1Affinity\<close> object built by
  \<^verbatim>\<open>get_pod_template_spec\<close>, or the raw value that the system-wide pod defaults put there.
\<close>

record V1Affinity =
  node_affinity :: "V1NodeAffinity option"
  pod_anti_affinity :: "V1PodAntiAffinity option"

datatype affinity_entry = Default_affinity string | Built_affinity V1Affinity

text \<open>
  The part of \<^verbatim>\<open>get_pod_template_spec\<close> that decides the \<^verbatim>\<open>affinity\<close> argument of
  \<^verbatim>\<open>V1PodSpec\<close>; the result \<open>None\<close> is a pod spec built without that argument.
  \<^verbatim>\<open>pod_spec_kwargs\<close> starts from the pod defaults. Assigning \<^verbatim>\<open>pod_anti_affinity\<close> on a
  raw default (a dictionary) raises \<^verbatim>\<open>AttributeError\<close>.
\<close>

definition get_pod_template_spec_affinity ::
  "SystemPaastaConfig \<Rightarrow> KubernetesDeploymentConfig \<Rightarrow> error + affinity_entry option" where
  "get_pod_template_spec_affinity system_paasta_config self =
     (let kwargs_affinity = map_option Default_affinity (pod_defaults_affinity system_paasta_config) in
      case get_node_affinity self of
        Inl e \<Rightarrow> Inl e
      | Inr node_aff \<Rightarrow>
          (let kwargs_affinity =
                 (if node_aff \<noteq> None
                  then Some (Built_affinity \<lparr>node_affinity = node_aff, pod_anti_affinity = None\<rparr>)
                  else kwargs_affinity);
               pod_anti_aff = get_pod_anti_affinity self
           in if pod_anti_aff \<noteq> None then
                (case kwargs_affinity of
                   None \<Rightarrow>
                     Inr (Some (Built_affinity
                            \<lparr>node_affinity = None, pod_anti_affinity = pod_anti_aff\<rparr>))
                 | Some (Built_affinity affinity) \<Rightarrow>
                     Inr (Some (Built_affinity (affinity\<lparr>pod_anti_affinity := pod_anti_aff\<rparr>)))
                 | Some (Default_affinity raw) \<Rightarrow>
                     Inl (AttributeError ''pod_anti_affinity''))
              else Inr kwargs_affinity))"

text \<open>
  A placement object is empty when it holds no requirement at all: every part of it is
  missing or is a list without elements.
\<close>

definition node_affinity_is_empty :: "V1NodeAffinity \<Rightarrow> bool" where
  "node_affinity_is_empty a =
     (concat (map matchExpressions
        (nodeSelectorTerms (requiredDuringSchedulingIgnoredDuringExecution a))) = [])"

definition affinity_is_empty :: "V1Affinity \<Rightarrow> bool" where
  "affinity_is_empty a =
     ((case node_affinity a of None \<Rightarrow> True | Some n \<Rightarrow> node_affinity_is_empty n)
      \<and> (case pod_anti_affinity a of
            None \<Rightarrow> True | Some p \<Rightarrow> anti_required_during_scheduling p = []))"

section \<open>A configuration with nothing set\<close>

text \<open>
  The configuration of a started service whose \<^verbatim>\<open>config_dict\<close> is empty and that has no
  volumes, no allow or deny list and no environment; the sample inputs below are updates of it.
\<close>

definition empty_config_dict :: KubernetesDeploymentConfigDict where
  "empty_config_dict =
     \<lparr>cfg_bounce_method = None, cfg_bounce_margin_factor = None, cfg_autoscaling = None,
      cfg_min_instances = None, cfg_max_instances = None, cfg_node_selectors = None,
      cfg_anti_affinity = None\<rparr>"

definition plain_config :: KubernetesDeploymentConfig where
  "plain_config =
     \<lparr>paasta_service = ''svc'', paasta_instance = ''main'', paasta_cluster = ''dev'',
      config_dict = empty_config_dict, desired_state = ''start'', autoscaling_enabled = False,
      super_desired_instances = 1, aws_ebs_volumes = [], persistent_volumes = [],
      deploy_whitelist = None, deploy_blacklist = [], env = []\<rparr>"

section \<open>Manifest compilation (format_kubernetes_app)\<close>



definition plain_system_config :: SystemPaastaConfig where
  "plain_system_config =
     \<lparr>hpa_always_uses_external_for_signalfx = False,
      legacy_autoscaling_signalflow_format = (\<lambda>setpoint off window service inst cluster metric. []),
      pod_defaults_affinity = None\<rparr>"

section \<open>Characters of a name\<close>



section \<open>Config hash (sanitize_for_config_hash, get_kubernetes_secret_hashes)\<close>

text \<open>
  What \<^verbatim>\<open>config.to_dict()\<close> returns: nested Python values. A dictionary is the list of its
  items in insertion order; a Python dictionary has each key once.
\<close>

datatype json =
    JNull
  | JBool bool
  | JInt int
  | JFloat rat
  | JStr string
  | JList "json list"
  | JObj "(string \<times> json) list"

type_synonym dict = "(string \<times> json) list"

definition CONFIG_HASH_BLACKLIST :: "string set" where
  "CONFIG_HASH_BLACKLIST = {''replicas''}"

text \<open>
  What the functions of \<^verbatim>\<open>paasta_tools.secret_tools\<close> (another module) return, and the
  answer of the cluster to \<^verbatim>\<open>read_namespaced_config_map(name, namespace="paasta")\<close>: the
  \<^verbatim>\<open>data\<close> of the config map (or a false value), or an \<^verbatim>\<open>ApiException\<close> with its status.
\<close>

record secret_tools =
  is_secret_ref :: "string \<Rightarrow> bool"
  is_shared_secret :: "string \<Rightarrow> bool"
  get_secret_name_from_ref :: "string \<Rightarrow> string"
  SHARED_SECRET_SERVICE :: string

datatype config_map_read =
    Config_map "(string \<times> string) list option"
  | Api_exception nat

type_synonym kube_client = "string \<Rightarrow> config_map_read"

definition get_kubernetes_secret_signature ::
  "kube_client \<Rightarrow> string \<Rightarrow> string \<Rightarrow> error + string option" where
  "get_kubernetes_secret_signature kube_client secret service =
     (let service = sanitise_kubernetes_name service;
          secret = sanitise_kubernetes_name secret
      in case kube_client (''paasta-secret-'' @ service @ ''-'' @ secret @ ''-signature'') of
           Api_exception status \<Rightarrow> if status = 404 then Inr None else Inl (ApiException status)
         | Config_map None \<Rightarrow> Inr None
         | Config_map (Some data) \<Rightarrow>
             (case subscript (map_of data ''signature'') ''signature'' of
                Inl e \<Rightarrow> Inl e
              | Inr signature \<Rightarrow> Inr (Some signature)))"

text \<open>
  The second loop of \<^verbatim>\<open>get_kubernetes_secret_hashes\<close>: \<^verbatim>\<open>hashes[value] = ...\<close> for each
  secret reference, stopping at the first exception.
\<close>

fun secret_hashes_loop ::
  "secret_tools \<Rightarrow> kube_client \<Rightarrow> string \<Rightarrow> string list \<Rightarrow> (string \<times> string option) list
     \<Rightarrow> error + (string \<times> string option) list" where
  "secret_hashes_loop tools kube_client service [] hashes = Inr hashes"
| "secret_hashes_loop tools kube_client service (v # to_get_hash) hashes =
     (case get_kubernetes_secret_signature kube_client
             (get_secret_name_from_ref tools v)
             (if is_shared_secret tools v then SHARED_SECRET_SERVICE tools else service) of
        Inl e \<Rightarrow> Inl e
      | Inr signature \<Rightarrow>
          secret_hashes_loop tools kube_client service to_get_hash
            (AList.update v signature hashes))"

definition get_kubernetes_secret_hashes ::
  "secret_tools \<Rightarrow> kube_client \<Rightarrow> (string \<times> string) list \<Rightarrow> string
     \<Rightarrow> error + (string \<times> string option) list" where
  "get_kubernetes_secret_hashes tools kube_client environment_variables service =
     (let to_get_hash = filter (is_secret_ref tools) (map snd environment_variables)
      in secret_hashes_loop tools kube_client service to_get_hash [])"

text \<open>A mapping from references to optional signatures as a nested value.\<close>

definition hashes_value :: "(string \<times> string option) list \<Rightarrow> json" where
  "hashes_value hashes =
     JObj (map (\<lambda>(k, v). (k, case v of None \<Rightarrow> JNull | Some s \<Rightarrow> JStr s)) hashes)"

text \<open>
  \<^verbatim>\<open>ahash["spec"]\<close> raises \<^verbatim>\<open>KeyError\<close> when the key is missing, and \<^verbatim>\<open>spec.items()\<close> raises
  \<^verbatim>\<open>AttributeError\<close> when the value is not a dictionary. \<^verbatim>\<open>copy.deepcopy\<close> returns an equal
  value.
\<close>

definition sanitize_for_config_hash ::
  "secret_tools \<Rightarrow> kube_client \<Rightarrow> KubernetesDeploymentConfig \<Rightarrow> dict \<Rightarrow> error + dict" where
  "sanitize_for_config_hash tools kube_client self config =
     (let ahash = filter (\<lambda>(key, val). key \<notin> CONFIG_HASH_BLACKLIST) config
      in case subscript (map_of ahash ''spec'') ''spec'' of
           Inl e \<Rightarrow> Inl e
         | Inr (JObj spec) \<Rightarrow>
             (let ahash = AList.update ''spec''
                            (JObj (filter (\<lambda>(key, val). key \<notin> CONFIG_HASH_BLACKLIST) spec))
                            ahash
              in case get_kubernetes_secret_hashes tools kube_client (env self)
                        (paasta_service self) of
                   Inl e \<Rightarrow> Inl e
                 | Inr hashes \<Rightarrow> Inr (AList.update ''paasta_secrets'' (hashes_value hashes) ahash))
         | Inr other \<Rightarrow> Inl (AttributeError ''items''))"

text \<open>
  Modelled from the spec: \<^verbatim>\<open>get_config_hash\<close> (paasta_tools.utils) is not part of this
  module. Sections 3 and 4.7 describe the hash as a digest of the content that does not
  depend on the key order of the representation. \<open>canon\<close> is the content with the keys of
  every dictionary sorted, and the digest, an opaque function into opaque hash values, is
  applied to it and to the force-bounce marker.
\<close>

primrec canon :: "json \<Rightarrow> json" where
  "canon JNull = JNull"
| "canon (JBool b) = JBool b"
| "canon (JInt i) = JInt i"
| "canon (JFloat x) = JFloat x"
| "canon (JStr s) = JStr s"
| "canon (JList xs) = JList (map canon xs)"
| "canon (JObj kvs) = JObj (sort_key fst (map (map_prod id canon) kvs))"

definition get_config_hash ::
  "(json \<Rightarrow> string option \<Rightarrow> 'hash) \<Rightarrow> dict \<Rightarrow> string option \<Rightarrow> 'hash" where
  "get_config_hash digest config force_bounce = digest (canon (JObj config)) force_bounce"

text \<open>
  Two values have the same content when they differ only in the order of the keys of
  their dictionaries, at any depth.
\<close>

inductive same_content :: "json \<Rightarrow> json \<Rightarrow> bool" where
  same_value: "same_content a a"
| same_list: "list_all2 same_content xs ys \<Longrightarrow> same_content (JList xs) (JList ys)"
| same_dict:
    "distinct (map fst kvs) \<Longrightarrow> distinct (map fst kvs') \<Longrightarrow>
     set (map fst kvs) = set (map fst kvs') \<Longrightarrow>
     (\<forall>k v v'. map_of kvs k = Some v \<longrightarrow> map_of kvs' k = Some v' \<longrightarrow> same_content v v') \<Longrightarrow>
     same_content (JObj kvs) (JObj kvs')"

text \<open>
  A manifest whose replica count is changed: at the top level, and inside \<^verbatim>\<open>spec\<close> when
  that is a dictionary.
\<close>

definition change_replicas :: "json \<Rightarrow> json \<Rightarrow> dict \<Rightarrow> dict" where
  "change_replicas top_count spec_count config =
     AList.update ''replicas'' top_count
       (case map_of config ''spec'' of
          Some (JObj spec) \<Rightarrow>
            AList.update ''spec'' (JObj (AList.update ''replicas'' spec_count spec)) config
        | _ \<Rightarrow> config)"

text \<open>
  The signature that \<^verbatim>\<open>get_kubernetes_secret_hashes\<close> records for one secret reference: the
  fingerprint of the secret.
\<close>

definition secret_signature_of ::
  "secret_tools \<Rightarrow> kube_client \<Rightarrow> string \<Rightarrow> string \<Rightarrow> error + string option" where
  "secret_signature_of tools kube_client service v =
     get_kubernetes_secret_signature kube_client
       (get_secret_name_from_ref tools v)
       (if is_shared_secret tools v then SHARED_SECRET_SERVICE tools else service)"

text \<open>
  Two dictionaries with the same keys, each key once, and values of the same content.
\<close>

definition dict_rel :: "dict \<Rightarrow> dict \<Rightarrow> bool" where
  "dict_rel d d' \<longleftrightarrow>
     distinct (map fst d) \<and> distinct (map fst d') \<and> set (map fst d) = set (map fst d')
     \<and> (\<forall>k v v'. map_of d k = Some v \<longrightarrow> map_of d' k = Some v' \<longrightarrow> same_content v v')"

text \<open>
  A sample manifest, the same manifest with its keys in another order, sample secret
  tools, a cluster in which every signature config map holds the given signature, and a
  service with one secret reference in its environment.
\<close>

definition sample_manifest :: dict where
  "sample_manifest =
     [(''kind'', JStr ''Deployment''),
      (''spec'', JObj [(''replicas'', JInt 3), (''template'', JStr ''pod'')])]"

definition sample_manifest_reordered :: dict where
  "sample_manifest_reordered =
     [(''spec'', JObj [(''template'', JStr ''pod''), (''replicas'', JInt 3)]),
      (''kind'', JStr ''Deployment'')]"

definition sample_tools :: secret_tools where
  "sample_tools =
     \<lparr>is_secret_ref = (\<lambda>v. take 7 v = ''SECRET(''),
      is_shared_secret = (\<lambda>v. False),
      get_secret_name_from_ref = (\<lambda>v. butlast (drop 7 v)),
      SHARED_SECRET_SERVICE = ''_shared''\<rparr>"

definition sample_cluster :: "string \<Rightarrow> kube_client" where
  "sample_cluster signature = (\<lambda>name. Config_map (Some [(''signature'', signature)]))"

definition sample_service :: KubernetesDeploymentConfig where
  "sample_service = plain_config\<lparr>env := [(''TOKEN'', ''SECRET(token)'')]\<rparr>"

section \<open>Pod disruption budget (max_unavailable)\<close>

definition max_unavailable :: "int \<Rightarrow> rat \<Rightarrow> int" where
  "max_unavailable instance_count bounce_margin_factor =
     (if instance_count = 0 then 0
      else max (instance_count
                  - math_ceil (float_mul (float_of_int instance_count) bounce_margin_factor)) 1)"

section \<open>Deploy status: the rule order\<close>

text \<open>
  C1. For every desired count, ready count (or none), updated count (or none) and observed
  count, the status returned by \<open>get_kubernetes_app_deploy_status\<close> is the outcome of the
  first matching rule of the specification's table, and the message is empty; the four
  sample observations give Stopped, Waiting, Deploying and Running.
\<close>

theorem deploy_status_first_match:
  "first_match (deploy_status_rules desired ready updated observed)
     = Some (fst (get_kubernetes_app_deploy_status
         \<lparr>ready_replicas = ready, updated_replicas = updated, replicas = Some observed\<rparr> desired))
   \<and> snd (get_kubernetes_app_deploy_status
         \<lparr>ready_replicas = ready, updated_replicas = updated, replicas = Some observed\<rparr> desired) = ''''
   \<and> get_kubernetes_app_deploy_status
         \<lparr>ready_replicas = None, updated_replicas = None, replicas = Some 0\<rparr> 0 = (Stopped, '''')
   \<and> get_kubernetes_app_deploy_status
         \<lparr>ready_replicas = Some 2, updated_replicas = Some 3, replicas = Some 3\<rparr> 3 = (Waiting, '''')
   \<and> get_kubernetes_app_deploy_status
         \<lparr>ready_replicas = Some 3, updated_replicas = Some 2, replicas = Some 3\<rparr> 3 = (Deploying, '''')
   \<and> get_kubernetes_app_deploy_status
         \<lparr>ready_replicas = Some 3, updated_replicas = Some 3, replicas = Some 3\<rparr> 3 = (Running, '''')"
  by (cases ready; cases updated)
     (simp_all add: get_kubernetes_app_deploy_status_def deploy_status_rules_def)

theorem deploy_status_first_match_witness:
  "first_match (deploy_status_rules 3 (Some 3) (Some 2) 3) = Some Deploying"
  using deploy_status_first_match [of 3 "Some 3" "Some 2" 3]
  by (simp add: get_kubernetes_app_deploy_status_def)

section \<open>Deploy status: zero desired and zero observed replicas\<close>

text \<open>
  C5, as stated, fails: with zero desired and zero observed replicas, a ready count of 1
  meets the second branch (ready differs from desired) before the Stopped branch is reached.
\<close>

theorem stopped_regardless_counterexample:
  "get_kubernetes_app_deploy_status
     \<lparr>ready_replicas = Some 1, updated_replicas = None, replicas = Some 0\<rparr> 0 = (Waiting, '''')"
  by (simp add: get_kubernetes_app_deploy_status_def)

text \<open>
  C5, amended. With zero desired and zero observed replicas the function returns Stopped
  exactly when the ready count is absent, or is 0 while the updated count is absent or not
  negative. Every observation whose counts are not negative and whose ready count does not
  exceed the total is of that form.
\<close>

theorem stopped_when_nothing_ready:
  "fst (get_kubernetes_app_deploy_status
         \<lparr>ready_replicas = ready, updated_replicas = updated, replicas = Some 0\<rparr> 0) = Stopped
   \<longleftrightarrow> (ready = None \<or> (ready = Some 0 \<and> (updated = None \<or> (\<exists>u. updated = Some u \<and> 0 \<le> u))))"
  by (cases ready; cases updated)
     (auto simp add: get_kubernetes_app_deploy_status_def)

theorem stopped_when_nothing_ready_witness:
  "fst (get_kubernetes_app_deploy_status
         \<lparr>ready_replicas = Some 0, updated_replicas = Some 0, replicas = Some 0\<rparr> 0) = Stopped"
  using stopped_when_nothing_ready [of "Some 0" "Some 0"] by simp

section \<open>Facts about float rounding\<close>
















section \<open>Deployment strategy by bounce method\<close>




section \<open>Desired instances and attached volumes\<close>




section \<open>Bounce method and attached EBS volumes\<close>

text \<open>
  C4. With at least one EBS volume attached, \<open>get_bounce_method\<close> succeeds exactly when the
  configured bounce method is downthenup (and then returns it), and fails with the
  IncompatibleBounceMethod exception for every other configured method and for a missing
  one (the default, crossover). With no EBS volume it never fails: it returns the configured
  method, or crossover when none is configured.
\<close>

theorem bounce_method_ebs_requires_downthenup:
  "(aws_ebs_volumes self \<noteq> [] \<longrightarrow>
      ((\<exists>m. get_bounce_method self = Inr m)
          \<longleftrightarrow> cfg_bounce_method (config_dict self) = Some ''downthenup'')
    \<and> (cfg_bounce_method (config_dict self) = Some ''downthenup''
          \<longrightarrow> get_bounce_method self = Inr ''downthenup'')
    \<and> (cfg_bounce_method (config_dict self) \<noteq> Some ''downthenup''
          \<longrightarrow> get_bounce_method self = Inl IncompatibleBounceMethod))
   \<and> (aws_ebs_volumes self = [] \<longrightarrow>
        get_bounce_method self
          = Inr (case cfg_bounce_method (config_dict self) of None \<Rightarrow> ''crossover'' | Some b \<Rightarrow> b))"
  by (cases "cfg_bounce_method (config_dict self)") (auto simp add: get_bounce_method_def)

theorem bounce_method_ebs_requires_downthenup_witness:
  "get_bounce_method
     (plain_config\<lparr>aws_ebs_volumes := [[(''volume_id'', ''vol-1'')]],
                   config_dict := empty_config_dict\<lparr>cfg_bounce_method := Some ''downthenup''\<rparr>\<rparr>)
     = Inr ''downthenup''
   \<and> get_bounce_method (plain_config\<lparr>aws_ebs_volumes := [[(''volume_id'', ''vol-1'')]]\<rparr>)
     = Inl IncompatibleBounceMethod
   \<and> get_bounce_method plain_config = Inr ''crossover''"
  using bounce_method_ebs_requires_downthenup
          [of "plain_config\<lparr>aws_ebs_volumes := [[(''volume_id'', ''vol-1'')]],
                   config_dict := empty_config_dict\<lparr>cfg_bounce_method := Some ''downthenup''\<rparr>\<rparr>"]
        bounce_method_ebs_requires_downthenup
          [of "plain_config\<lparr>aws_ebs_volumes := [[(''volume_id'', ''vol-1'')]]\<rparr>"]
        bounce_method_ebs_requires_downthenup [of plain_config]
  by (simp add: plain_config_def empty_config_dict_def)

section \<open>Pod disruption budget: at least one pod may be disrupted\<close>

text \<open>
  C10. \<open>max_unavailable\<close> returns 0 for an instance count of 0 and at least 1 for every
  positive instance count, whatever the bounce margin factor (so also for every factor in
  (0, 1], 1.0 included).
\<close>

theorem max_unavailable_at_least_one:
  "max_unavailable 0 f = 0 \<and> (0 < n \<longrightarrow> 1 \<le> max_unavailable n f)"
  by (simp add: max_unavailable_def)

theorem max_unavailable_at_least_one_witness:
  "max_unavailable 0 1 = 0 \<and> (0::int) < 3 \<and> 1 \<le> max_unavailable 3 1"
  using max_unavailable_at_least_one [of 1 3] by simp

section \<open>Facts about the autoscaling, placement and sanitiser functions\<close>



lemma node_affinity_none_iff:
  "get_node_affinity self = Inr None \<longleftrightarrow> merged_requirements self = Inr []"
  by (cases "merged_requirements self")
     (auto simp add: get_node_affinity_def Let_def)

lemma node_affinity_some:
  assumes "merged_requirements self = Inr rs" "rs \<noteq> []"
  shows "get_node_affinity self =
           Inr (Some (V1NodeAffinity (V1NodeSelector
             [V1NodeSelectorTerm (map (\<lambda>(key, op, vs). V1NodeSelectorRequirement key op vs) rs)])))"
  using assms by (simp add: get_node_affinity_def Let_def)

lemma node_affinity_error:
  "merged_requirements self = Inl e \<Longrightarrow> get_node_affinity self = Inl e"
  by (simp add: get_node_affinity_def)

lemma node_affinity_not_empty:
  assumes "get_node_affinity self = Inr (Some a)"
  shows "\<not> node_affinity_is_empty a"
proof (cases "merged_requirements self")
  case (Inl e)
  then show ?thesis using assms by (simp add: get_node_affinity_def)
next
  case (Inr rs)
  then show ?thesis using assms
    by (auto simp add: get_node_affinity_def Let_def node_affinity_is_empty_def split: if_splits)
qed

lemma template_affinity_without_defaults:
  assumes "pod_defaults_affinity sys = None"
  shows "get_pod_template_spec_affinity sys self =
           (case get_node_affinity self of
              Inl e \<Rightarrow> Inl e
            | Inr n \<Rightarrow>
                if n = None \<and> get_pod_anti_affinity self = None then Inr None
                else Inr (Some (Built_affinity
                       \<lparr>node_affinity = n, pod_anti_affinity = get_pod_anti_affinity self\<rparr>)))"
  using assms
  by (cases "get_node_affinity self")
     (auto simp add: get_pod_template_spec_affinity_def Let_def split: option.splits)

lemma template_node_affinity_not_empty:
  assumes "get_pod_template_spec_affinity sys self = Inr (Some (Built_affinity a))"
    and "node_affinity a = Some n"
  shows "\<not> node_affinity_is_empty n"
proof (cases "get_node_affinity self")
  case (Inl e)
  then show ?thesis using assms by (simp add: get_pod_template_spec_affinity_def)
next
  case (Inr na)
  have "na = Some n"
    using assms Inr
    by (auto simp add: get_pod_template_spec_affinity_def Let_def
        split: option.splits if_splits affinity_entry.splits)
  then show ?thesis using Inr node_affinity_not_empty by blast
qed

lemma lower_char_upper:
  assumes "65 \<le> (of_char c :: nat)" "(of_char c :: nat) \<le> 90"
  shows "lower_char c \<noteq> CHR ''-''" "lower_char c \<noteq> CHR ''_''"
proof -
  let ?n = "of_char c + 32 :: nat"
  have n: "(of_char (char_of ?n) :: nat) = ?n mod 256" by (rule of_char_of)
  have m: "?n mod 256 = ?n" using assms by simp
  have l: "lower_char c = char_of ?n" using assms by (simp add: lower_char_def)
  show "lower_char c \<noteq> CHR ''-''"
  proof
    assume "lower_char c = CHR ''-''"
    then have "(of_char (char_of ?n) :: nat) = of_char (CHR ''-'')" using l by simp
    then show False using n m assms by simp
  qed
  show "lower_char c \<noteq> CHR ''_''"
  proof
    assume "lower_char c = CHR ''_''"
    then have "(of_char (char_of ?n) :: nat) = of_char (CHR ''_'')" using l by simp
    then show False using n m assms by simp
  qed
qed

lemma lower_char_dash [simp]: "lower_char c = CHR ''-'' \<longleftrightarrow> c = CHR ''-''"
proof (cases "65 \<le> (of_char c :: nat) \<and> (of_char c :: nat) \<le> 90")
  case True
  then have "lower_char c \<noteq> CHR ''-''" using lower_char_upper(1) by blast
  moreover have "c \<noteq> CHR ''-''" using True by auto
  ultimately show ?thesis by simp
next
  case False
  then show ?thesis by (auto simp add: lower_char_def)
qed

lemma lower_char_underscore [simp]: "lower_char c = CHR ''_'' \<longleftrightarrow> c = CHR ''_''"
proof (cases "65 \<le> (of_char c :: nat) \<and> (of_char c :: nat) \<le> 90")
  case True
  then have "lower_char c \<noteq> CHR ''_''" using lower_char_upper(2) by blast
  moreover have "c \<noteq> CHR ''_''" using True by auto
  ultimately show ?thesis by simp
next
  case False
  then show ?thesis by (auto simp add: lower_char_def)
qed

lemma lower_char_dash' [simp]: "CHR ''-'' = lower_char c \<longleftrightarrow> c = CHR ''-''"
  using lower_char_dash [of c] by (auto simp del: lower_char_dash)

lemma lower_char_underscore' [simp]: "CHR ''_'' = lower_char c \<longleftrightarrow> c = CHR ''_''"
  using lower_char_underscore [of c] by (auto simp del: lower_char_underscore)

lemma lower_char_dash_self [simp]: "lower_char (CHR ''-'') = CHR ''-''"
  by (simp add: lower_char_def)

lemma lower_char_underscore_self [simp]: "lower_char (CHR ''_'') = CHR ''_''"
  by (simp add: lower_char_def)


lemma str_replace_count_zero: "str_replace_count old new 0 s = s"
  by (cases s) simp_all

lemma replace_leading_dashes:
  "str_replace_count ''--'' ''underscore-'' 1 (CHR ''-'' # CHR ''-'' # s) = ''underscore-'' @ s"
  by (simp add: str_replace_count_zero)










section \<open>Autoscaling: when no policy is built\<close>



section \<open>Placement: no empty node affinity\<close>

text \<open>
  C8, as stated, fails. An \<^verbatim>\<open>anti_affinity\<close> list whose only condition has no
  \<^verbatim>\<open>service\<close> or \<^verbatim>\<open>instance\<close> key gives a pod anti-affinity with no term, and the pod
  template then carries an affinity object that holds no requirement at all. And an
  \<^verbatim>\<open>affinity\<close> entry of the system-wide pod defaults reaches the pod template although
  neither the node affinity nor the pod anti-affinity is present.
\<close>

theorem empty_placement_counterexample:
  "get_pod_template_spec_affinity plain_system_config
     (plain_config\<lparr>config_dict := empty_config_dict
        \<lparr>cfg_anti_affinity := Some (Conditions [[(''foo'', ''bar'')]])\<rparr>\<rparr>)
     = Inr (Some (Built_affinity
         \<lparr>node_affinity = None, pod_anti_affinity = Some (V1PodAntiAffinity [])\<rparr>))
   \<and> affinity_is_empty \<lparr>node_affinity = None, pod_anti_affinity = Some (V1PodAntiAffinity [])\<rparr>
   \<and> get_node_affinity plain_config = Inr None
   \<and> get_pod_anti_affinity plain_config = None
   \<and> get_pod_template_spec_affinity
        (plain_system_config\<lparr>pod_defaults_affinity := Some ''{}''\<rparr>) plain_config
     = Inr (Some (Default_affinity ''{}''))"
  by code_simp

text \<open>
  C8, amended. \<open>get_node_affinity\<close> returns \<^verbatim>\<open>None\<close> exactly when the merged requirement
  list (allow list, deny list, raw selectors) is empty; for a non-empty list it returns one
  term with exactly these requirements, and it raises what building the list raises. When
  the system-wide pod defaults set no affinity, the pod template gets no affinity if both
  the node affinity and the pod anti-affinity are absent, and otherwise an affinity object
  holding exactly the two. A node affinity that is returned or emitted is never empty.
\<close>

theorem node_affinity_absent_iff_no_requirements:
  "(get_node_affinity self = Inr None \<longleftrightarrow> merged_requirements self = Inr [])
   \<and> (\<forall>rs. merged_requirements self = Inr rs \<and> rs \<noteq> [] \<longrightarrow>
         get_node_affinity self =
           Inr (Some (V1NodeAffinity (V1NodeSelector
             [V1NodeSelectorTerm
                (map (\<lambda>(key, op, vs). V1NodeSelectorRequirement key op vs) rs)]))))
   \<and> (\<forall>e. merged_requirements self = Inl e \<longrightarrow> get_node_affinity self = Inl e)
   \<and> (\<forall>a. get_node_affinity self = Inr (Some a) \<longrightarrow> \<not> node_affinity_is_empty a)
   \<and> (pod_defaults_affinity sys = None \<longrightarrow>
        get_pod_template_spec_affinity sys self =
          (case get_node_affinity self of
             Inl e \<Rightarrow> Inl e
           | Inr n \<Rightarrow>
               if n = None \<and> get_pod_anti_affinity self = None then Inr None
               else Inr (Some (Built_affinity
                      \<lparr>node_affinity = n, pod_anti_affinity = get_pod_anti_affinity self\<rparr>))))
   \<and> (\<forall>a n. get_pod_template_spec_affinity sys self = Inr (Some (Built_affinity a))
          \<and> node_affinity a = Some n \<longrightarrow> \<not> node_affinity_is_empty n)"
  using node_affinity_none_iff [of self] node_affinity_some [of self]
    node_affinity_error [of self] node_affinity_not_empty [of self]
    template_affinity_without_defaults [of sys self]
    template_node_affinity_not_empty [of sys self]
  by blast

theorem node_affinity_absent_iff_no_requirements_witness:
  "merged_requirements plain_config = Inr []
   \<and> get_node_affinity plain_config = Inr None
   \<and> get_pod_template_spec_affinity plain_system_config plain_config = Inr None
   \<and> get_node_affinity (plain_config\<lparr>deploy_blacklist := [(''habitat'', ''bad'')]\<rparr>)
       = Inr (Some (V1NodeAffinity (V1NodeSelector
             [V1NodeSelectorTerm [V1NodeSelectorRequirement ''yelp.com/habitat'' ''NotIn'' [''bad'']]])))"
proof -
  have a: "merged_requirements plain_config = Inr []" by code_simp
  have b: "merged_requirements (plain_config\<lparr>deploy_blacklist := [(''habitat'', ''bad'')]\<rparr>)
             = Inr [(''yelp.com/habitat'', ''NotIn'', [''bad''])]" by code_simp
  have c: "pod_defaults_affinity plain_system_config = None"
    by (simp add: plain_system_config_def)
  have d: "get_pod_anti_affinity plain_config = None" by code_simp
  show ?thesis
    using a b c d
      node_affinity_absent_iff_no_requirements [of plain_config plain_system_config]
      node_affinity_absent_iff_no_requirements
        [of "plain_config\<lparr>deploy_blacklist := [(''habitat'', ''bad'')]\<rparr>" plain_system_config]
    by simp
qed

section \<open>Name sanitiser: injective up to letter case on names without a dash\<close>




section \<open>Config hash: what the sanitised content depends on\<close>

lemma filter_update_blacklisted:
  "k \<in> B \<Longrightarrow> filter (\<lambda>(key, val). key \<notin> B) (AList.update k v al) = filter (\<lambda>(key, val). key \<notin> B) al"
  by (induction al) auto

lemma filter_update_kept:
  "k \<notin> B \<Longrightarrow> map_of al k \<noteq> None \<Longrightarrow>
   filter (\<lambda>(key, val). key \<notin> B) (AList.update k v al) = AList.update k v (filter (\<lambda>(key, val). key \<notin> B) al)"
  by (induction al) auto

lemma map_of_filter_kept:
  "k \<notin> B \<Longrightarrow> map_of (filter (\<lambda>(key, val). key \<notin> B) al) k = map_of al k"
  by (induction al) auto

lemma map_of_filter_dropped:
  "k \<in> B \<Longrightarrow> map_of (filter (\<lambda>(key, val). key \<notin> B) al) k = None"
  by (induction al) auto

lemma spec_not_blacklisted: "''spec'' \<notin> CONFIG_HASH_BLACKLIST"
  by (simp add: CONFIG_HASH_BLACKLIST_def)

lemma replicas_blacklisted: "''replicas'' \<in> CONFIG_HASH_BLACKLIST"
  by (simp add: CONFIG_HASH_BLACKLIST_def)

lemma sanitize_change_replicas:
  "sanitize_for_config_hash tools kube self (change_replicas t s config)
     = sanitize_for_config_hash tools kube self config"
proof (cases "map_of config ''spec''")
  case None
  then show ?thesis
    by (simp add: sanitize_for_config_hash_def change_replicas_def
        filter_update_blacklisted [OF replicas_blacklisted])
next
  case (Some sp)
  show ?thesis
  proof (cases "\<exists>spec. sp = JObj spec")
    case False
    then show ?thesis using Some
      by (cases sp) (simp_all add: sanitize_for_config_hash_def change_replicas_def
          filter_update_blacklisted [OF replicas_blacklisted])
  next
    case True
    then obtain spec where sp: "sp = JObj spec" by blast
    have ne: "map_of config ''spec'' \<noteq> None" using Some by simp
    show ?thesis using Some sp
      by (simp add: sanitize_for_config_hash_def change_replicas_def
          filter_update_blacklisted [OF replicas_blacklisted]
          filter_update_kept [OF spec_not_blacklisted ne]
          map_of_filter_kept [OF spec_not_blacklisted]
          AList.update_conv' subscript_def)
  qed
qed

lemma filter_same_key_distinct:
  "distinct (map fst L) \<Longrightarrow> k \<in> set L \<Longrightarrow> filter (\<lambda>x. fst k = fst x) L = [k]"
proof (induction L)
  case Nil
  then show ?case by simp
next
  case (Cons x L)
  show ?case
  proof (cases "k = x")
    case True
    have "filter (\<lambda>y. fst x = fst y) L = []"
      using Cons.prems(1) by (auto simp add: filter_empty_conv)
    then show ?thesis using True by simp
  next
    case False
    then have kin: "k \<in> set L" using Cons.prems(2) by simp
    then have "fst k \<in> set (map fst L)" by simp
    moreover have "fst x \<notin> set (map fst L)" using Cons.prems(1) by simp
    ultimately have "fst k \<noteq> fst x" by metis
    then show ?thesis using Cons.IH kin Cons.prems(1) by simp
  qed
qed

lemma sort_key_fst_unique:
  assumes "distinct (map fst A)" "distinct (map fst B)" "set A = set B"
  shows "sort_key fst A = sort_key fst B"
proof (rule properties_for_sort_key)
  have dA: "distinct A" and dB: "distinct B"
    using assms(1,2) distinct_map by blast+
  have m: "mset A = mset B" using dA dB assms(3) set_eq_iff_mset_eq_distinct by blast
  show "mset (sort_key fst B) = mset A" using m by simp
  show "sorted (map fst (sort_key fst B))" by (rule sorted_sort_key)
  fix k assume "k \<in> set (sort_key fst B)"
  then have kB: "k \<in> set B" by simp
  then have kA: "k \<in> set A" using assms(3) by simp
  have dS: "distinct (map fst (sort_key fst B))"
    using assms(2) by (simp add: distinct_map)
  have "filter (\<lambda>x. fst k = fst x) (sort_key fst B) = [k]"
    using filter_same_key_distinct [OF dS] kB by simp
  moreover have "filter (\<lambda>x. fst k = fst x) A = [k]"
    using filter_same_key_distinct [OF assms(1) kA] .
  ultimately show "filter (\<lambda>x. fst k = fst x) (sort_key fst B) = filter (\<lambda>x. fst k = fst x) A"
    by simp
qed

lemma map_of_canon_items:
  "map_of (map (map_prod id canon) kvs) k = map_option canon (map_of kvs k)"
  by (induction kvs) auto

lemma fst_canon_items: "map fst (map (map_prod id canon) kvs) = map fst kvs"
  by (induction kvs) auto

lemma canon_items_eq:
  assumes "distinct (map fst kvs)" "distinct (map fst kvs')"
    and "set (map fst kvs) = set (map fst kvs')"
    and "\<forall>k v v'. map_of kvs k = Some v \<longrightarrow> map_of kvs' k = Some v' \<longrightarrow> canon v = canon v'"
  shows "sort_key fst (map (map_prod id canon) kvs) = sort_key fst (map (map_prod id canon) kvs')"
proof (rule sort_key_fst_unique)
  let ?A = "map (map_prod id canon) kvs"
  let ?B = "map (map_prod id canon) kvs'"
  show dA: "distinct (map fst ?A)" using assms(1) by (simp only: fst_canon_items)
  show dB: "distinct (map fst ?B)" using assms(2) by (simp only: fst_canon_items)
  have "map_of ?A = map_of ?B"
  proof
    fix k
    show "map_of ?A k = map_of ?B k"
    proof (cases "map_of kvs k")
      case None
      then have "k \<notin> set (map fst kvs)" by (simp add: map_of_eq_None_iff)
      then have "k \<notin> set (map fst kvs')" using assms(3) by simp
      then have "map_of kvs' k = None" by (simp add: map_of_eq_None_iff)
      then show ?thesis using None by (simp add: map_of_canon_items)
    next
      case (Some v)
      then have "k \<in> set (map fst kvs)" by (metis map_of_eq_None_iff option.distinct(1) set_map)
      then have "k \<in> set (map fst kvs')" using assms(3) by simp
      then obtain v' where v': "map_of kvs' k = Some v'"
        by (metis map_of_eq_None_iff not_Some_eq set_map)
      then have "canon v = canon v'" using assms(4) Some by blast
      then show ?thesis using Some v' by (simp add: map_of_canon_items)
    qed
  qed
  then show "set ?A = set ?B" using dA dB map_of_inject_set by blast
qed

lemma same_content_canon: "same_content a b \<Longrightarrow> canon a = canon b"
proof (induction rule: same_content.induct)
  case (same_value a)
  then show ?case by simp
next
  case (same_list xs ys)
  then have "list_all2 (\<lambda>x y. canon x = canon y) xs ys"
    by (simp add: list_all2_mono)
  then have "map canon xs = map canon ys"
    by (induction rule: list_all2_induct) simp_all
  then show ?case by simp
next
  case (same_dict kvs kvs')
  then show ?case using canon_items_eq [of kvs kvs'] by simp
qed

lemma dict_rel_same_content: "dict_rel d d' \<Longrightarrow> same_content (JObj d) (JObj d')"
  unfolding dict_rel_def by (intro same_content.same_dict) auto

lemma same_content_dict_rel:
  assumes "distinct (map fst d)" "same_content (JObj d) b"
  shows "\<exists>d'. b = JObj d' \<and> dict_rel d d'"
  using assms(2)
proof (cases rule: same_content.cases)
  case same_value
  then show ?thesis using assms(1) by (auto simp add: dict_rel_def intro: same_content.same_value)
next
  case (same_dict kvs')
  then show ?thesis by (auto simp add: dict_rel_def)
qed

lemma same_content_obj_filter:
  assumes "same_content (JObj sp) b"
  shows "\<exists>sp'. b = JObj sp'
     \<and> same_content (JObj (filter (\<lambda>(key, val). key \<notin> B) sp)) (JObj (filter (\<lambda>(key, val). key \<notin> B) sp'))"
  using assms
proof (cases rule: same_content.cases)
  case same_value
  then show ?thesis by (auto intro: same_content.same_value)
next
  case (same_dict kvs')
  have k: "map fst (filter (\<lambda>(key, val). key \<notin> B) l) = filter (\<lambda>key. key \<notin> B) (map fst l)" for l :: dict
    by (induction l) auto
  have m: "map_of (filter (\<lambda>(key, val). key \<notin> B) l) k = (if k \<in> B then None else map_of l k)" for l :: dict and k
    by (induction l) auto
  have "same_content (JObj (filter (\<lambda>(key, val). key \<notin> B) sp)) (JObj (filter (\<lambda>(key, val). key \<notin> B) kvs'))"
  proof (rule same_content.same_dict)
    show "distinct (map fst (filter (\<lambda>(key, val). key \<notin> B) sp))"
      using same_dict(2) by (simp add: k)
    show "distinct (map fst (filter (\<lambda>(key, val). key \<notin> B) kvs'))"
      using same_dict(3) by (simp add: k)
    show "set (map fst (filter (\<lambda>(key, val). key \<notin> B) sp)) = set (map fst (filter (\<lambda>(key, val). key \<notin> B) kvs'))"
      using same_dict(4) by (simp only: k set_filter) 
    show "\<forall>k v v'. map_of (filter (\<lambda>(key, val). key \<notin> B) sp) k = Some v \<longrightarrow>
            map_of (filter (\<lambda>(key, val). key \<notin> B) kvs') k = Some v' \<longrightarrow> same_content v v'"
      using same_dict(5) by (auto simp add: m split: if_splits)
  qed
  then show ?thesis using same_dict(1) by blast
qed

lemma dict_rel_filter:
  assumes "dict_rel d d'"
  shows "dict_rel (filter (\<lambda>(key, val). key \<notin> B) d) (filter (\<lambda>(key, val). key \<notin> B) d')"
proof -
  have k: "map fst (filter (\<lambda>(key, val). key \<notin> B) l) = filter (\<lambda>key. key \<notin> B) (map fst l)" for l :: dict
    by (induction l) auto
  have m: "map_of (filter (\<lambda>(key, val). key \<notin> B) l) k = (if k \<in> B then None else map_of l k)" for l :: dict and k
    by (induction l) auto
  show ?thesis
    using assms unfolding dict_rel_def
    by (auto simp add: k m split: if_splits)
qed

lemma dict_rel_lookup:
  assumes "dict_rel d d'"
  shows "(map_of d k = None \<longleftrightarrow> map_of d' k = None)
     \<and> (\<forall>v v'. map_of d k = Some v \<longrightarrow> map_of d' k = Some v' \<longrightarrow> same_content v v')"
proof -
  have "k \<in> set (map fst d) \<longleftrightarrow> k \<in> set (map fst d')" using assms by (simp add: dict_rel_def)
  then have "map_of d k = None \<longleftrightarrow> map_of d' k = None"
    by (simp add: map_of_eq_None_iff)
  then show ?thesis using assms by (auto simp add: dict_rel_def)
qed

lemma dict_rel_update:
  assumes "dict_rel d d'" "same_content v v'"
  shows "dict_rel (AList.update k v d) (AList.update k v' d')"
proof -
  have ks: "set (map fst (AList.update k x l)) = insert k (set (map fst l))" for x and l :: dict
    using AList.dom_update [of k x l] by simp
  have "distinct (map fst (AList.update k v d))" "distinct (map fst (AList.update k v' d'))"
    using assms(1) by (simp_all add: dict_rel_def AList.distinct_update)
  moreover have "set (map fst (AList.update k v d)) = set (map fst (AList.update k v' d'))"
    using assms(1) by (simp only: ks dict_rel_def)
  moreover have "\<forall>j w w'. map_of (AList.update k v d) j = Some w \<longrightarrow>
      map_of (AList.update k v' d') j = Some w' \<longrightarrow> same_content w w'"
    using assms by (auto simp add: AList.update_conv' dict_rel_def split: if_splits)
  ultimately show ?thesis unfolding dict_rel_def by blast
qed

lemma same_content_not_obj:
  assumes "same_content v v'" "\<forall>sp. v \<noteq> JObj sp"
  shows "\<forall>sp'. v' \<noteq> JObj sp'"
  using assms by (cases rule: same_content.cases) auto

lemma sanitize_unfold:
  "sanitize_for_config_hash tools kube self config =
     (case map_of (filter (\<lambda>(key, val). key \<notin> CONFIG_HASH_BLACKLIST) config) ''spec'' of
        None \<Rightarrow> Inl (KeyError ''spec'')
      | Some (JObj spec) \<Rightarrow>
          (case get_kubernetes_secret_hashes tools kube (env self) (paasta_service self) of
             Inl e \<Rightarrow> Inl e
           | Inr hashes \<Rightarrow>
               Inr (AList.update ''paasta_secrets'' (hashes_value hashes)
                      (AList.update ''spec''
                         (JObj (filter (\<lambda>(key, val). key \<notin> CONFIG_HASH_BLACKLIST) spec))
                         (filter (\<lambda>(key, val). key \<notin> CONFIG_HASH_BLACKLIST) config))))
      | Some other \<Rightarrow> Inl (AttributeError ''items''))"
  by (simp add: sanitize_for_config_hash_def subscript_def Let_def
      split: option.split json.split sum.split)

lemma sanitize_same_content:
  assumes "distinct (map fst config)" "same_content (JObj config) (JObj config')"
  shows "(\<forall>e. sanitize_for_config_hash tools kube self config = Inl e
               \<longleftrightarrow> sanitize_for_config_hash tools kube self config' = Inl e)
       \<and> (\<forall>a a'. sanitize_for_config_hash tools kube self config = Inr a
               \<and> sanitize_for_config_hash tools kube self config' = Inr a'
               \<longrightarrow> same_content (JObj a) (JObj a'))"
proof -
  let ?F = "filter (\<lambda>(key, val). key \<notin> CONFIG_HASH_BLACKLIST) config"
  let ?F' = "filter (\<lambda>(key, val). key \<notin> CONFIG_HASH_BLACKLIST) config'"
  have "dict_rel config config'" using same_content_dict_rel [OF assms] by auto
  then have rel: "dict_rel ?F ?F'" by (rule dict_rel_filter)
  note lk = dict_rel_lookup [OF rel, of "''spec''"]
  show ?thesis
  proof (cases "map_of ?F ''spec''")
    case None
    then have "map_of ?F' ''spec'' = None" using lk by simp
    then show ?thesis using None by (simp add: sanitize_unfold)
  next
    case (Some v)
    then obtain v' where v': "map_of ?F' ''spec'' = Some v'" using lk by auto
    have sc: "same_content v v'" using lk Some v' by blast
    show ?thesis
    proof (cases "\<exists>sp. v = JObj sp")
      case False
      then have "\<forall>sp'. v' \<noteq> JObj sp'" using same_content_not_obj [OF sc] by blast
      then show ?thesis using False Some v'
        by (cases v; cases v') (simp_all add: sanitize_unfold)
    next
      case True
      then obtain sp where sp: "v = JObj sp" by blast
      obtain sp' where sp': "v' = JObj sp'"
        and f: "same_content (JObj (filter (\<lambda>(key, val). key \<notin> CONFIG_HASH_BLACKLIST) sp))
                  (JObj (filter (\<lambda>(key, val). key \<notin> CONFIG_HASH_BLACKLIST) sp'))"
        using same_content_obj_filter [of sp v' CONFIG_HASH_BLACKLIST] sc sp by blast
      show ?thesis
      proof (cases "get_kubernetes_secret_hashes tools kube (env self) (paasta_service self)")
        case (Inl e)
        then show ?thesis using Some v' sp sp' by (simp add: sanitize_unfold)
      next
        case (Inr h)
        have "dict_rel
                (AList.update ''paasta_secrets'' (hashes_value h)
                   (AList.update ''spec''
                      (JObj (filter (\<lambda>(key, val). key \<notin> CONFIG_HASH_BLACKLIST) sp)) ?F))
                (AList.update ''paasta_secrets'' (hashes_value h)
                   (AList.update ''spec''
                      (JObj (filter (\<lambda>(key, val). key \<notin> CONFIG_HASH_BLACKLIST) sp')) ?F'))"
          by (intro dict_rel_update rel f same_content.same_value)
        then show ?thesis using Some v' sp sp' Inr
          by (simp add: sanitize_unfold dict_rel_same_content)
      qed
    qed
  qed
qed

lemma secret_hashes_loop_result:
  assumes "secret_hashes_loop tools kube service vs h0 = Inr h"
  shows "(\<forall>v \<in> set vs. \<exists>sg. secret_signature_of tools kube service v = Inr sg \<and> map_of h v = Some sg)
       \<and> (\<forall>k. k \<notin> set vs \<longrightarrow> map_of h k = map_of h0 k)
       \<and> (distinct (map fst h0) \<longrightarrow> distinct (map fst h))"
  using assms
proof (induction vs arbitrary: h0)
  case Nil
  then show ?case by simp
next
  case (Cons u rest)
  from Cons.prems obtain sg where sg: "secret_signature_of tools kube service u = Inr sg"
    and loop: "secret_hashes_loop tools kube service rest (AList.update u sg h0) = Inr h"
    by (auto simp add: secret_signature_of_def split: sum.splits)
  note ih = Cons.IH [OF loop]
  have a: "\<forall>v \<in> set (u # rest). \<exists>sg. secret_signature_of tools kube service v = Inr sg \<and> map_of h v = Some sg"
  proof
    fix v assume v: "v \<in> set (u # rest)"
    show "\<exists>sg. secret_signature_of tools kube service v = Inr sg \<and> map_of h v = Some sg"
    proof (cases "v \<in> set rest")
      case True
      then show ?thesis using ih by blast
    next
      case False
      then have vu: "v = u" using v by simp
      have "map_of h u = map_of (AList.update u sg h0) u" using ih False vu by blast
      then show ?thesis using sg vu by (simp add: AList.update_conv')
    qed
  qed
  have b: "\<forall>k. k \<notin> set (u # rest) \<longrightarrow> map_of h k = map_of h0 k"
    using ih by (auto simp add: AList.update_conv')
  have c: "distinct (map fst h0) \<longrightarrow> distinct (map fst h)"
    using ih by (simp add: AList.distinct_update)
  show ?case using a b c by blast
qed

lemma map_of_hashes_value:
  "map_of (map (\<lambda>(k, v). (k, case v of None \<Rightarrow> JNull | Some s \<Rightarrow> JStr s)) h) k
     = map_option (\<lambda>v. case v of None \<Rightarrow> JNull | Some s \<Rightarrow> JStr s) (map_of h k)"
  by (induction h) auto

lemma fst_hashes_value:
  "map fst (map (\<lambda>(k, v). (k, case v of None \<Rightarrow> JNull | Some s \<Rightarrow> JStr s)) h) = map fst h"
  by (induction h) auto

lemma map_of_sort_key_fst:
  assumes "distinct (map fst L)"
  shows "map_of (sort_key fst L) = map_of L"
proof -
  have "distinct (map fst (sort_key fst L))" using assms by (simp add: distinct_map)
  moreover have "set (sort_key fst L) = set L" by simp
  ultimately show ?thesis using assms map_of_inject_set by blast
qed

lemma canon_obj_lookup:
  assumes "distinct (map fst d)" "distinct (map fst d')" "canon (JObj d) = canon (JObj d')"
  shows "map_option canon (map_of d k) = map_option canon (map_of d' k)"
proof -
  have "map_of (sort_key fst (map (map_prod id canon) d)) = map_of (sort_key fst (map (map_prod id canon) d'))"
    using assms(3) by simp
  then have "map_of (map (map_prod id canon) d) = map_of (map (map_prod id canon) d')"
    using assms(1,2) by (simp add: map_of_sort_key_fst fst_canon_items)
  then have "map_of (map (map_prod id canon) d) k = map_of (map (map_prod id canon) d') k" by simp
  then show ?thesis by (simp only: map_of_canon_items)
qed

lemma sanitize_secrets_entry:
  assumes "sanitize_for_config_hash tools kube self config = Inr a"
  shows "\<exists>h. get_kubernetes_secret_hashes tools kube (env self) (paasta_service self) = Inr h
           \<and> map_of a ''paasta_secrets'' = Some (hashes_value h)"
  using assms
  by (auto simp add: sanitize_unfold AList.update_conv' split: option.splits json.splits sum.splits)

lemma sanitize_distinct:
  assumes "distinct (map fst config)" "sanitize_for_config_hash tools kube self config = Inr a"
  shows "distinct (map fst a)"
proof -
  have k: "map fst (filter (\<lambda>(key, val). key \<notin> B) l) = filter (\<lambda>key. key \<notin> B) (map fst l)" for l :: dict and B
    by (induction l) auto
  have "distinct (map fst (filter (\<lambda>(key, val). key \<notin> CONFIG_HASH_BLACKLIST) config))"
    using assms(1) by (simp add: k)
  then show ?thesis using assms(2)
    by (auto simp add: sanitize_unfold AList.distinct_update split: option.splits json.splits sum.splits)
qed

lemma sanitize_secret_change:
  assumes "distinct (map fst config)"
    and "sanitize_for_config_hash tools kube self config = Inr a"
    and "sanitize_for_config_hash tools kube' self config = Inr a'"
    and "v \<in> snd ` set (env self)" "is_secret_ref tools v"
    and "secret_signature_of tools kube (paasta_service self) v
           \<noteq> secret_signature_of tools kube' (paasta_service self) v"
  shows "canon (JObj a) \<noteq> canon (JObj a')"
proof
  assume eq: "canon (JObj a) = canon (JObj a')"
  obtain h where h: "get_kubernetes_secret_hashes tools kube (env self) (paasta_service self) = Inr h"
    and ah: "map_of a ''paasta_secrets'' = Some (hashes_value h)"
    using sanitize_secrets_entry [OF assms(2)] by blast
  obtain h' where h': "get_kubernetes_secret_hashes tools kube' (env self) (paasta_service self) = Inr h'"
    and ah': "map_of a' ''paasta_secrets'' = Some (hashes_value h')"
    using sanitize_secrets_entry [OF assms(3)] by blast
  have da: "distinct (map fst a)" "distinct (map fst a')"
    using sanitize_distinct [OF assms(1)] assms(2,3) by blast+
  have "map_option canon (map_of a ''paasta_secrets'') = map_option canon (map_of a' ''paasta_secrets'')"
    using canon_obj_lookup [OF da eq] .
  then have ceq: "canon (hashes_value h) = canon (hashes_value h')" using ah ah' by simp
  let ?vs = "filter (is_secret_ref tools) (map snd (env self))"
  have vin: "v \<in> set ?vs" using assms(4,5) by auto
  have l: "secret_hashes_loop tools kube (paasta_service self) ?vs [] = Inr h"
    using h by (simp add: get_kubernetes_secret_hashes_def)
  have l': "secret_hashes_loop tools kube' (paasta_service self) ?vs [] = Inr h'"
    using h' by (simp add: get_kubernetes_secret_hashes_def)
  obtain sg where sg: "secret_signature_of tools kube (paasta_service self) v = Inr sg"
      "map_of h v = Some sg"
    using secret_hashes_loop_result [OF l] vin by blast
  obtain sg' where sg': "secret_signature_of tools kube' (paasta_service self) v = Inr sg'"
      "map_of h' v = Some sg'"
    using secret_hashes_loop_result [OF l'] vin by blast
  have dh: "distinct (map fst h)" "distinct (map fst h')"
    using secret_hashes_loop_result [OF l] secret_hashes_loop_result [OF l'] by simp_all
  let ?j = "\<lambda>h. map (\<lambda>(k, v). (k, case v of None \<Rightarrow> JNull | Some s \<Rightarrow> JStr s)) h"
  have "canon (JObj (?j h)) = canon (JObj (?j h'))" using ceq by (simp add: hashes_value_def)
  moreover have "distinct (map fst (?j h))" "distinct (map fst (?j h'))"
    using dh by (simp_all only: fst_hashes_value)
  ultimately have "map_option canon (map_of (?j h) v) = map_option canon (map_of (?j h') v)"
    using canon_obj_lookup by blast
  then have "sg = sg'" using sg(2) sg'(2)
    by (simp add: map_of_hashes_value split: option.splits)
  then show False using sg(1) sg'(1) assms(6) by simp
qed

lemma sample_same_content: "same_content (JObj sample_manifest) (JObj sample_manifest_reordered)"
proof -
  have sp: "same_content (JObj [(''replicas'', JInt 3), (''template'', JStr ''pod'')])
              (JObj [(''template'', JStr ''pod''), (''replicas'', JInt 3)])"
    by (rule same_content.same_dict) (auto intro: same_content.same_value split: if_splits)
  show ?thesis
    unfolding sample_manifest_def sample_manifest_reordered_def
    by (rule same_content.same_dict) (auto intro: same_content.same_value sp split: if_splits)
qed

lemma sample_values:
  "sanitize_for_config_hash sample_tools (sample_cluster ''abc'') sample_service sample_manifest
     = Inr [(''kind'', JStr ''Deployment''), (''spec'', JObj [(''template'', JStr ''pod'')]),
            (''paasta_secrets'', JObj [(''SECRET(token)'', JStr ''abc'')])]"
  "sanitize_for_config_hash sample_tools (sample_cluster ''abc'') sample_service sample_manifest_reordered
     = Inr [(''spec'', JObj [(''template'', JStr ''pod'')]), (''kind'', JStr ''Deployment''),
            (''paasta_secrets'', JObj [(''SECRET(token)'', JStr ''abc'')])]"
  "sanitize_for_config_hash sample_tools (sample_cluster ''xyz'') sample_service sample_manifest
     = Inr [(''kind'', JStr ''Deployment''), (''spec'', JObj [(''template'', JStr ''pod'')]),
            (''paasta_secrets'', JObj [(''SECRET(token)'', JStr ''xyz'')])]"
  "secret_signature_of sample_tools (sample_cluster ''abc'') (paasta_service sample_service) ''SECRET(token)''
     = Inr (Some ''abc'')"
  "secret_signature_of sample_tools (sample_cluster ''xyz'') (paasta_service sample_service) ''SECRET(token)''
     = Inr (Some ''xyz'')"
  "''SECRET(token)'' \<in> snd ` set (env sample_service)"
  "is_secret_ref sample_tools ''SECRET(token)''"
  "distinct (map fst sample_manifest)"
  by code_simp+

text \<open>
  C2. For a manifest that is a dictionary (each key once): changing the replica count, at
  the top level and inside \<^verbatim>\<open>spec\<close>, leaves the result of \<open>sanitize_for_config_hash\<close>
  unchanged; a manifest with the same content in another key order, at any depth, gives the
  same exception or a result of the same content, and hence the same config hash; the
  result holds the secret fingerprints under \<^verbatim>\<open>paasta_secrets\<close>; and when the fingerprint of
  a secret that the environment refers to changes, the manifest staying fixed, the content
  that is hashed changes, and so does the hash for a digest without collisions.
\<close>

theorem config_hash_invariance:
  assumes "distinct (map fst config)"
  shows "sanitize_for_config_hash tools kube self (change_replicas top_count spec_count config)
           = sanitize_for_config_hash tools kube self config
       \<and> (same_content (JObj config) (JObj config') \<longrightarrow>
            (\<forall>e. sanitize_for_config_hash tools kube self config = Inl e
                   \<longleftrightarrow> sanitize_for_config_hash tools kube self config' = Inl e)
          \<and> (\<forall>a a'. sanitize_for_config_hash tools kube self config = Inr a
                   \<and> sanitize_for_config_hash tools kube self config' = Inr a'
                 \<longrightarrow> same_content (JObj a) (JObj a')
                   \<and> get_config_hash digest a force_bounce = get_config_hash digest a' force_bounce))
       \<and> (\<forall>a. sanitize_for_config_hash tools kube self config = Inr a \<longrightarrow>
            (\<exists>h. get_kubernetes_secret_hashes tools kube (env self) (paasta_service self) = Inr h
               \<and> map_of a ''paasta_secrets'' = Some (hashes_value h)))
       \<and> (\<forall>a a' v. sanitize_for_config_hash tools kube self config = Inr a
              \<and> sanitize_for_config_hash tools kube' self config = Inr a'
              \<and> v \<in> snd ` set (env self) \<and> is_secret_ref tools v
              \<and> secret_signature_of tools kube (paasta_service self) v
                   \<noteq> secret_signature_of tools kube' (paasta_service self) v
            \<longrightarrow> canon (JObj a) \<noteq> canon (JObj a')
              \<and> (inj (\<lambda>content. digest content force_bounce) \<longrightarrow>
                   get_config_hash digest a force_bounce \<noteq> get_config_hash digest a' force_bounce))"
proof (intro conjI impI allI)
  show "sanitize_for_config_hash tools kube self (change_replicas top_count spec_count config)
           = sanitize_for_config_hash tools kube self config"
    by (rule sanitize_change_replicas)
next
  fix e assume "same_content (JObj config) (JObj config')"
  then show "sanitize_for_config_hash tools kube self config = Inl e
               \<longleftrightarrow> sanitize_for_config_hash tools kube self config' = Inl e"
    using sanitize_same_content [OF assms] by blast
next
  fix a a' assume sc: "same_content (JObj config) (JObj config')"
    and r: "sanitize_for_config_hash tools kube self config = Inr a
               \<and> sanitize_for_config_hash tools kube self config' = Inr a'"
  show s: "same_content (JObj a) (JObj a')"
    using sanitize_same_content [OF assms sc] r by blast
  show "get_config_hash digest a force_bounce = get_config_hash digest a' force_bounce"
    using same_content_canon [OF s] by (simp add: get_config_hash_def)
next
  fix a assume "sanitize_for_config_hash tools kube self config = Inr a"
  then show "\<exists>h. get_kubernetes_secret_hashes tools kube (env self) (paasta_service self) = Inr h
               \<and> map_of a ''paasta_secrets'' = Some (hashes_value h)"
    by (rule sanitize_secrets_entry)
next
  fix a a' v
  assume h: "sanitize_for_config_hash tools kube self config = Inr a
              \<and> sanitize_for_config_hash tools kube' self config = Inr a'
              \<and> v \<in> snd ` set (env self) \<and> is_secret_ref tools v
              \<and> secret_signature_of tools kube (paasta_service self) v
                   \<noteq> secret_signature_of tools kube' (paasta_service self) v"
  show c: "canon (JObj a) \<noteq> canon (JObj a')"
    using sanitize_secret_change [OF assms, of tools kube self a kube' a' v] h by blast
  assume "inj (\<lambda>content. digest content force_bounce)"
  then show "get_config_hash digest a force_bounce \<noteq> get_config_hash digest a' force_bounce"
    using c by (auto simp add: get_config_hash_def dest: injD)
qed

theorem config_hash_invariance_witness:
  "sanitize_for_config_hash sample_tools (sample_cluster ''abc'') sample_service
       (change_replicas (JInt 9) (JInt 7) sample_manifest)
     = sanitize_for_config_hash sample_tools (sample_cluster ''abc'') sample_service sample_manifest
   \<and> get_config_hash Pair
        [(''kind'', JStr ''Deployment''), (''spec'', JObj [(''template'', JStr ''pod'')]),
         (''paasta_secrets'', JObj [(''SECRET(token)'', JStr ''abc'')])] None
     = get_config_hash Pair
        [(''spec'', JObj [(''template'', JStr ''pod'')]), (''kind'', JStr ''Deployment''),
         (''paasta_secrets'', JObj [(''SECRET(token)'', JStr ''abc'')])] None
   \<and> get_config_hash Pair
        [(''kind'', JStr ''Deployment''), (''spec'', JObj [(''template'', JStr ''pod'')]),
         (''paasta_secrets'', JObj [(''SECRET(token)'', JStr ''abc'')])] None
     \<noteq> get_config_hash Pair
        [(''kind'', JStr ''Deployment''), (''spec'', JObj [(''template'', JStr ''pod'')]),
         (''paasta_secrets'', JObj [(''SECRET(token)'', JStr ''xyz'')])] None"
proof -
  have i: "inj (\<lambda>content. Pair content (None :: string option))"
    by (simp add: inj_on_def)
  have ne: "secret_signature_of sample_tools (sample_cluster ''abc'') (paasta_service sample_service) ''SECRET(token)''
     \<noteq> secret_signature_of sample_tools (sample_cluster ''xyz'') (paasta_service sample_service) ''SECRET(token)''"
    by (simp add: sample_values(4,5))
  note t = config_hash_invariance [OF sample_values(8), of sample_tools "sample_cluster ''abc''"
      sample_service "JInt 9" "JInt 7" sample_manifest_reordered Pair None "sample_cluster ''xyz''"]
  show ?thesis
    using t sample_same_content sample_values(1,2,3,6,7) ne i by blast
qed

end
